theory Spec2Isabelle
  imports Main
begin

section \<open>The WebSocket connection manager\<close>

text \<open>
  The repository holds two versions of the hook \<open>useWebSocket\<close>:
  \<^item> \<open>src/hooks/useWebSocket.ts\<close>, on \<open>stores/connectionStore.ts\<close>: exponential backoff,
    five reconnects at most (suffix \<open>_exp\<close> below);
  \<^item> the second hook (\<open>unnamed/part_004\<close>), on \<open>stores/appStore.ts\<close>: a fixed
    \<open>reconnectInterval\<close> and a configurable \<open>maxReconnectAttempts\<close> (suffix \<open>_fix\<close>).

  Both are event handlers over three refs and a store. The model is a state record with
  one function per handler; the browser (socket events, timers) is a list of events.
\<close>

subsection \<open>Data\<close>

text \<open>The union of the two \<open>ConnectionStatus\<close> types: \<open>connectionStore.ts\<close> has no
  \<open>connecting\<close>, \<open>appStore.ts\<close> has no \<open>reconnecting\<close>.\<close>

datatype ConnectionStatus = Disconnected | Connecting | Connected | Reconnecting | Error

text \<open>\<open>WebSocket.readyState\<close>.\<close>

datatype ready_state = CONNECTING | OPEN | CLOSING | CLOSED

text \<open>What \<open>JSON.parse\<close> returns; the hooks cast it to \<open>WebSocketMessage\<close> unchecked.\<close>

datatype json = JNull | JBool bool | JNum int | JStr string
  | JArr "json list" | JObj "(string \<times> json) list"

type_synonym WebSocketMessage = json

text \<open>A \<open>WebSocket\<close> object: its \<open>readyState\<close> and the frames handed to its \<open>send\<close>.\<close>

record WebSocket =
  readyState :: ready_state
  sent :: "string list"

datatype timer_state = Pending | Fired | Cleared

text \<open>A timer made by \<open>setTimeout\<close>: the delay it was given, and whether it is still due.\<close>

record timer =
  delay :: nat
  tstate :: timer_state

text \<open>Calls of the callbacks the component passed to the hook.\<close>

datatype callback = OnMessage WebSocketMessage | OnOpen | OnClose | OnError

text \<open>
  The refs of the hook (\<open>wsRef\<close>, \<open>reconnectTimeoutRef\<close>, \<open>reconnectAttempts\<close>), the store
  (\<open>status\<close>, \<open>lastSync\<close>, \<open>errorMessage\<close>; \<open>appStore.ts\<close> has no \<open>errorMessage\<close> and the
  second hook never writes it), every socket and timer created so far (a ref is an index
  in these lists, \<open>None\<close> is \<open>null\<close>), and what an observer sees: each status written, each
  callback called, each line of \<open>console.error\<close>.
\<close>

record state =
  wsRef :: "nat option"
  reconnectTimeoutRef :: "nat option"
  reconnectAttempts :: nat
  status :: ConnectionStatus
  lastSync :: "nat option"
  errorMessage :: "string option"
  sockets :: "WebSocket list"
  timers :: "timer list"
  status_log :: "ConnectionStatus list"
  calls :: "callback list"
  console :: "string list"

text \<open>
  What a hook is given: the options of the second hook, whether \<open>new WebSocket(url)\<close>
  accepts the configured URL (it throws on a malformed one), the two functions of \<open>JSON\<close>
  (\<open>json_parse data = None\<close> when \<open>JSON.parse\<close> throws), and which optional callbacks
  are there.
\<close>

record hook =
  maxReconnectAttempts :: nat
  reconnectInterval :: nat
  url_valid :: bool
  json_parse :: "string \<Rightarrow> json option"
  json_stringify :: "json \<Rightarrow> string"
  has_onMessage :: bool
  has_onOpen :: bool
  has_onClose :: bool
  has_onError :: bool

definition init :: state where
  "init = \<lparr>wsRef = None, reconnectTimeoutRef = None, reconnectAttempts = 0,
     status = Disconnected, lastSync = None, errorMessage = None,
     sockets = [], timers = [], status_log = [], calls = [], console = []\<rparr>"

subsection \<open>The store, the console, timers and sockets\<close>

definition setStatus :: "ConnectionStatus \<Rightarrow> state \<Rightarrow> state" where
  "setStatus st s = s\<lparr>status := st, status_log := status_log s @ [st]\<rparr>"

definition setLastSync :: "nat \<Rightarrow> state \<Rightarrow> state" where
  "setLastSync now s = s\<lparr>lastSync := Some now\<rparr>"

definition setError :: "string option \<Rightarrow> state \<Rightarrow> state" where
  "setError m s = s\<lparr>errorMessage := m\<rparr>"

definition console_error :: "string \<Rightarrow> state \<Rightarrow> state" where
  "console_error l s = s\<lparr>console := console s @ [l]\<rparr>"

definition call :: "bool \<Rightarrow> callback \<Rightarrow> state \<Rightarrow> state" where
  "call present c s = (if present then s\<lparr>calls := calls s @ [c]\<rparr> else s)"

text \<open>\<open>wsRef.current?.readyState\<close>: \<open>None\<close> is \<open>undefined\<close>.\<close>

definition ws_readyState :: "state \<Rightarrow> ready_state option" where
  "ws_readyState s =
     (case wsRef s of None \<Rightarrow> None
      | Some i \<Rightarrow> if i < length (sockets s) then Some (readyState (sockets s ! i)) else None)"

text \<open>\<open>wsRef.current = new WebSocket(url)\<close>, for a URL the constructor accepts.\<close>

definition new_WebSocket :: "state \<Rightarrow> state" where
  "new_WebSocket s =
     s\<lparr>sockets := sockets s @ [\<lparr>readyState = CONNECTING, sent = []\<rparr>],
       wsRef := Some (length (sockets s))\<rparr>"

text \<open>\<open>reconnectTimeoutRef.current = setTimeout(..., d)\<close>.\<close>

definition setTimeout :: "nat \<Rightarrow> state \<Rightarrow> state" where
  "setTimeout d s =
     s\<lparr>timers := timers s @ [\<lparr>delay = d, tstate = Pending\<rparr>],
       reconnectTimeoutRef := Some (length (timers s))\<rparr>"

text \<open>\<open>clearTimeout\<close> cancels a timer that is still due and ignores any other.\<close>

definition clearTimeout :: "nat \<Rightarrow> state \<Rightarrow> state" where
  "clearTimeout t s =
     (if t < length (timers s) \<and> tstate (timers s ! t) = Pending
      then s\<lparr>timers := (timers s)[t := (timers s ! t)\<lparr>tstate := Cleared\<rparr>]\<rparr>
      else s)"

text \<open>\<open>WebSocket.close()\<close>: a connecting or open socket starts closing (its \<open>close\<close> event
  comes later); on a closing or closed one the call does nothing.\<close>

definition ws_close :: "nat \<Rightarrow> state \<Rightarrow> state" where
  "ws_close i s =
     (if i < length (sockets s) \<and> readyState (sockets s ! i) \<in> {CONNECTING, OPEN}
      then s\<lparr>sockets := (sockets s)[i := (sockets s ! i)\<lparr>readyState := CLOSING\<rparr>]\<rparr>
      else s)"

definition ws_send :: "nat \<Rightarrow> string \<Rightarrow> state \<Rightarrow> state" where
  "ws_send i frame s =
     s\<lparr>sockets := (sockets s)[i := (sockets s ! i)\<lparr>sent := sent (sockets s ! i) @ [frame]\<rparr>]\<rparr>"

definition set_readyState :: "nat \<Rightarrow> ready_state \<Rightarrow> state \<Rightarrow> state" where
  "set_readyState i r s =
     s\<lparr>sockets := (sockets s)[i := (sockets s ! i)\<lparr>readyState := r\<rparr>]\<rparr>"

definition pending_timers :: "state \<Rightarrow> nat list" where
  "pending_timers s = filter (\<lambda>t. tstate (timers s ! t) = Pending) [0..<length (timers s)]"

definition open_sockets :: "state \<Rightarrow> nat list" where
  "open_sockets s = filter (\<lambda>i. readyState (sockets s ! i) = OPEN) [0..<length (sockets s)]"

text \<open>A socket is live while it is connecting or open.\<close>

definition live_sockets :: "state \<Rightarrow> nat list" where
  "live_sockets s =
     filter (\<lambda>i. readyState (sockets s ! i) \<in> {CONNECTING, OPEN}) [0..<length (sockets s)]"

subsection \<open>The hook with exponential backoff (\<open>src/hooks/useWebSocket.ts\<close>)\<close>

definition maxReconnectAttempts_exp :: nat where
  "maxReconnectAttempts_exp = 5"

definition connect_exp :: "hook \<Rightarrow> state \<Rightarrow> state" where
  "connect_exp h s =
     (if ws_readyState s = Some OPEN then s
      else if url_valid h then new_WebSocket s
      else setError (Some ''Failed to create WebSocket connection'') (setStatus Error s))"

definition onopen_exp :: "nat \<Rightarrow> state \<Rightarrow> state" where
  "onopen_exp now s =
     (setLastSync now (setError None (setStatus Connected s)))\<lparr>reconnectAttempts := 0\<rparr>"

text \<open>\<open>JSON.parse\<close> is the first statement of the \<open>try\<close> block: when it throws, neither
  \<open>setLastSync\<close> nor \<open>onMessage\<close> runs, and the \<open>catch\<close> block logs.\<close>

definition onmessage_exp :: "hook \<Rightarrow> string \<Rightarrow> nat \<Rightarrow> state \<Rightarrow> state" where
  "onmessage_exp h data now s =
     (case json_parse h data of
        None \<Rightarrow> console_error ''Failed to parse WebSocket message:'' s
      | Some message \<Rightarrow> call (has_onMessage h) (OnMessage message) (setLastSync now s))"

definition attemptReconnect :: "state \<Rightarrow> state" where
  "attemptReconnect s =
     (if reconnectAttempts s \<ge> maxReconnectAttempts_exp
      then setError (Some ''Max reconnection attempts reached'') (setStatus Error s)
      else let s1 = (setStatus Reconnecting s)\<lparr>reconnectAttempts := reconnectAttempts s + 1\<rparr>
           in setTimeout (min (1000 * 2 ^ reconnectAttempts s1) 30000) s1)"

definition onclose_exp :: "state \<Rightarrow> state" where
  "onclose_exp s = attemptReconnect (setStatus Disconnected s)"

definition onerror_exp :: "state \<Rightarrow> state" where
  "onerror_exp s = setError (Some ''WebSocket connection failed'') (setStatus Error s)"

definition disconnect_exp :: "state \<Rightarrow> state" where
  "disconnect_exp s =
     (let s1 = (case reconnectTimeoutRef s of None \<Rightarrow> s | Some t \<Rightarrow> clearTimeout t s);
          s2 = (case wsRef s1 of None \<Rightarrow> s1 | Some i \<Rightarrow> ws_close i s1)
      in setStatus Disconnected s2)"

definition send_exp :: "hook \<Rightarrow> WebSocketMessage \<Rightarrow> state \<Rightarrow> state" where
  "send_exp h message s =
     (case wsRef s of
        None \<Rightarrow> s
      | Some i \<Rightarrow> if ws_readyState s = Some OPEN then ws_send i (json_stringify h message) s
                  else s)"

subsection \<open>The hook with a fixed delay (the second \<open>useWebSocket\<close>)\<close>

definition connect_fix :: "hook \<Rightarrow> state \<Rightarrow> state" where
  "connect_fix h s =
     (if ws_readyState s = Some OPEN then s
      else let s1 = setStatus Connecting s
           in if url_valid h then new_WebSocket s1
              else console_error ''WebSocket connection error:'' (setStatus Error s1))"

definition onopen_fix :: "hook \<Rightarrow> nat \<Rightarrow> state \<Rightarrow> state" where
  "onopen_fix h now s =
     call (has_onOpen h) OnOpen
       ((setLastSync now (setStatus Connected s))\<lparr>reconnectAttempts := 0\<rparr>)"

definition onmessage_fix :: "hook \<Rightarrow> string \<Rightarrow> nat \<Rightarrow> state \<Rightarrow> state" where
  "onmessage_fix h data now s =
     (case json_parse h data of
        None \<Rightarrow> console_error ''Failed to parse WebSocket message:'' s
      | Some message \<Rightarrow> call (has_onMessage h) (OnMessage message) (setLastSync now s))"

text \<open>The timer's callback: \<open>reconnectAttemptsRef.current++; connect()\<close>.\<close>

definition retry_fix :: "hook \<Rightarrow> state \<Rightarrow> state" where
  "retry_fix h s = connect_fix h (s\<lparr>reconnectAttempts := reconnectAttempts s + 1\<rparr>)"

definition onclose_fix :: "hook \<Rightarrow> state \<Rightarrow> state" where
  "onclose_fix h s =
     (let s1 = call (has_onClose h) OnClose (setStatus Disconnected s)
      in if reconnectAttempts s1 < maxReconnectAttempts h
         then setTimeout (reconnectInterval h) s1
         else s1)"

definition onerror_fix :: "hook \<Rightarrow> state \<Rightarrow> state" where
  "onerror_fix h s = call (has_onError h) OnError (setStatus Error s)"

definition disconnect_fix :: "state \<Rightarrow> state" where
  "disconnect_fix s =
     (let s1 = (case reconnectTimeoutRef s of None \<Rightarrow> s | Some t \<Rightarrow> clearTimeout t s);
          s2 = (case wsRef s1 of None \<Rightarrow> s1 | Some i \<Rightarrow> (ws_close i s1)\<lparr>wsRef := None\<rparr>)
      in setStatus Disconnected s2)"

definition send_fix :: "hook \<Rightarrow> WebSocketMessage \<Rightarrow> state \<Rightarrow> state" where
  "send_fix h message s =
     (case wsRef s of
        None \<Rightarrow> s
      | Some i \<Rightarrow> if ws_readyState s = Some OPEN then ws_send i (json_stringify h message) s
                  else s)"

subsection \<open>Events\<close>

text \<open>
  What can happen to a hook: a call of its interface, or the browser running a handler.
  The handlers that read the clock (\<open>new Date()\<close>) get the reading with the event.
  \<^item> \<open>SockOpen i now\<close>: socket \<open>i\<close>, connecting, opens; its \<open>onopen\<close> runs.
  \<^item> \<open>SockMessage i data now\<close>: a text frame arrives on the open socket \<open>i\<close>.
  \<^item> \<open>SockClose i failed\<close>: socket \<open>i\<close>, not yet closed, is closed. The browser sets
    \<open>readyState\<close> to \<open>CLOSED\<close>, fires \<open>error\<close> first when the connection failed, then
    \<open>close\<close>.
  \<^item> \<open>TimerFire t\<close>: timer \<open>t\<close>, still due, runs its callback.
  An event the browser cannot produce in a state (a second \<open>open\<close>, a cleared timer
  firing) has no successor: \<open>step\<close> is \<open>None\<close>.
\<close>

datatype variant = ExpBackoff | FixedDelay

datatype event =
    Connect
  | Disconnect
  | Send WebSocketMessage
  | SockOpen nat nat
  | SockMessage nat string nat
  | SockClose nat bool
  | TimerFire nat

definition connect :: "variant \<Rightarrow> hook \<Rightarrow> state \<Rightarrow> state" where
  "connect v h s = (case v of ExpBackoff \<Rightarrow> connect_exp h s | FixedDelay \<Rightarrow> connect_fix h s)"

definition disconnect :: "variant \<Rightarrow> state \<Rightarrow> state" where
  "disconnect v s = (case v of ExpBackoff \<Rightarrow> disconnect_exp s | FixedDelay \<Rightarrow> disconnect_fix s)"

definition send :: "variant \<Rightarrow> hook \<Rightarrow> WebSocketMessage \<Rightarrow> state \<Rightarrow> state" where
  "send v h m s = (case v of ExpBackoff \<Rightarrow> send_exp h m s | FixedDelay \<Rightarrow> send_fix h m s)"

definition onopen :: "variant \<Rightarrow> hook \<Rightarrow> nat \<Rightarrow> state \<Rightarrow> state" where
  "onopen v h now s = (case v of ExpBackoff \<Rightarrow> onopen_exp now s | FixedDelay \<Rightarrow> onopen_fix h now s)"

definition onmessage :: "variant \<Rightarrow> hook \<Rightarrow> string \<Rightarrow> nat \<Rightarrow> state \<Rightarrow> state" where
  "onmessage v h data now s =
     (case v of ExpBackoff \<Rightarrow> onmessage_exp h data now s
      | FixedDelay \<Rightarrow> onmessage_fix h data now s)"

definition onerror :: "variant \<Rightarrow> hook \<Rightarrow> state \<Rightarrow> state" where
  "onerror v h s = (case v of ExpBackoff \<Rightarrow> onerror_exp s | FixedDelay \<Rightarrow> onerror_fix h s)"

definition onclose :: "variant \<Rightarrow> hook \<Rightarrow> state \<Rightarrow> state" where
  "onclose v h s = (case v of ExpBackoff \<Rightarrow> onclose_exp s | FixedDelay \<Rightarrow> onclose_fix h s)"

definition ontimer :: "variant \<Rightarrow> hook \<Rightarrow> state \<Rightarrow> state" where
  "ontimer v h s = (case v of ExpBackoff \<Rightarrow> connect_exp h s | FixedDelay \<Rightarrow> retry_fix h s)"

definition timer_fired :: "nat \<Rightarrow> state \<Rightarrow> state" where
  "timer_fired t s = s\<lparr>timers := (timers s)[t := (timers s ! t)\<lparr>tstate := Fired\<rparr>]\<rparr>"

fun step :: "variant \<Rightarrow> hook \<Rightarrow> state \<Rightarrow> event \<Rightarrow> state option" where
  "step v h s Connect = Some (connect v h s)"
| "step v h s Disconnect = Some (disconnect v s)"
| "step v h s (Send m) = Some (send v h m s)"
| "step v h s (SockOpen i now) =
     (if i < length (sockets s) \<and> readyState (sockets s ! i) = CONNECTING
      then Some (onopen v h now (set_readyState i OPEN s)) else None)"
| "step v h s (SockMessage i data now) =
     (if i < length (sockets s) \<and> readyState (sockets s ! i) = OPEN
      then Some (onmessage v h data now s) else None)"
| "step v h s (SockClose i failed) =
     (if i < length (sockets s) \<and> readyState (sockets s ! i) \<noteq> CLOSED
      then let s1 = set_readyState i CLOSED s
           in Some (onclose v h (if failed then onerror v h s1 else s1))
      else None)"
| "step v h s (TimerFire t) =
     (if t < length (timers s) \<and> tstate (timers s ! t) = Pending
      then Some (ontimer v h (timer_fired t s)) else None)"

fun run :: "variant \<Rightarrow> hook \<Rightarrow> state \<Rightarrow> event list \<Rightarrow> state option" where
  "run v h s [] = Some s"
| "run v h s (e # es) = (case step v h s e of None \<Rightarrow> None | Some s' \<Rightarrow> run v h s' es)"

text \<open>The state after a list of events (the initial state when the browser cannot
  produce them).\<close>

definition after :: "variant \<Rightarrow> hook \<Rightarrow> event list \<Rightarrow> state" where
  "after v h es = (case run v h init es of None \<Rightarrow> init | Some s \<Rightarrow> s)"

text \<open>The clock readings that come with a list of events, in order.\<close>

fun clock :: "event \<Rightarrow> nat option" where
  "clock (SockOpen i now) = Some now"
| "clock (SockMessage i data now) = Some now"
| "clock e = None"

fun readings :: "event list \<Rightarrow> nat list" where
  "readings [] = []"
| "readings (e # es) = (case clock e of None \<Rightarrow> readings es | Some t \<Rightarrow> t # readings es)"


text \<open>
  A hook to run examples on: the default options of the second hook (five attempts,
  3000 ms), the default URL, every callback present, and a \<open>JSON\<close> that knows two
  texts, \<open>null\<close> and \<open>[]\<close>, and rejects every other frame.
\<close>

definition default_hook :: hook where
  "default_hook = \<lparr>maxReconnectAttempts = 5, reconnectInterval = 3000, url_valid = True,
     json_parse = (\<lambda>data. if data = ''null'' then Some JNull
                          else if data = ''[]'' then Some (JArr []) else None),
     json_stringify = (\<lambda>j. if j = JNull then ''null'' else ''[]''),
     has_onMessage = True, has_onOpen = True, has_onClose = True, has_onError = True\<rparr>"

text \<open>
  \<open>failures i k\<close>: \<open>k\<close> consecutive failures to open, the first on socket \<open>i\<close>. Each is
  the browser closing the socket with an \<open>error\<close> event; between two of them the retry
  timer fires and makes the next socket.
\<close>

fun failures :: "nat \<Rightarrow> nat \<Rightarrow> event list" where
  "failures i 0 = []"
| "failures i (Suc k) =
     SockClose i True # (if k = 0 then [] else TimerFire i # failures (Suc i) k)"

text \<open>The hook with a fixed delay in the middle of its retry loop: \<open>j\<close> sockets have
  failed, \<open>j\<close> timers have fired, socket \<open>j\<close> is connecting.\<close>

definition retrying :: "nat \<Rightarrow> state \<Rightarrow> bool" where
  "retrying j s \<longleftrightarrow>
     map readyState (sockets s) = replicate j CLOSED @ [CONNECTING]
     \<and> map tstate (timers s) = replicate j Fired
     \<and> reconnectAttempts s = j \<and> wsRef s = Some j"

text \<open>Counting, for the bound on retries: the timers that fired (each one a retry made),
  the timers still due, and the sockets whose \<open>close\<close> event is still to come.\<close>

fun is_open :: "event \<Rightarrow> bool" where
  "is_open (SockOpen i now) = True"
| "is_open e = False"

definition retries_fired :: "state \<Rightarrow> nat" where
  "retries_fired s = length (filter (\<lambda>t. tstate t = Fired) (timers s))"

definition retries_pending :: "state \<Rightarrow> nat" where
  "retries_pending s = length (filter (\<lambda>t. tstate t = Pending) (timers s))"

definition unclosed :: "state \<Rightarrow> nat" where
  "unclosed s = length (filter (\<lambda>w. readyState w \<noteq> CLOSED) (sockets s))"

text \<open>
  The budget of the hook with a fixed delay after \<open>K\<close> calls of \<open>connect()\<close> and no
  successful open: the counter is the number of retries made; every timer due and every
  socket not yet closed goes back to one of the \<open>K\<close> calls; and the retries made and due
  stay within \<open>maxReconnectAttempts + K - 1\<close>.
\<close>

definition retry_budget :: "hook \<Rightarrow> nat \<Rightarrow> state \<Rightarrow> bool" where
  "retry_budget h K s \<longleftrightarrow>
     reconnectAttempts s = retries_fired s
     \<and> retries_pending s + unclosed s \<le> K
     \<and> (retries_fired s + retries_pending s + 1 \<le> maxReconnectAttempts h + K
        \<or> (retries_fired s = 0 \<and> retries_pending s = 0))"

text \<open>
  The events that run \<open>connect()\<close>: a call, and a retry timer firing. A run is patient
  when \<open>connect()\<close> never runs while the current socket is still connecting.
\<close>

fun connects :: "event \<Rightarrow> bool" where
  "connects Connect = True"
| "connects (TimerFire t) = True"
| "connects e = False"

fun patient :: "variant \<Rightarrow> hook \<Rightarrow> state \<Rightarrow> event list \<Rightarrow> bool" where
  "patient v h s [] = True"
| "patient v h s (e # es) =
     ((if connects e then ws_readyState s \<noteq> Some CONNECTING else True)
      \<and> (case step v h s e of None \<Rightarrow> True | Some s' \<Rightarrow> patient v h s' es))"

text \<open>No socket is live but the current one (\<open>wsRef\<close>).\<close>

definition current_only :: "state \<Rightarrow> bool" where
  "current_only s \<longleftrightarrow>
     (\<forall>i < length (sockets s). readyState (sockets s ! i) \<in> {CONNECTING, OPEN} \<longrightarrow> wsRef s = Some i)"

section \<open>Properties\<close>

subsection \<open>Unfolding the handlers, runs and their invariants\<close>

lemmas store_defs = setStatus_def setLastSync_def setError_def console_error_def call_def

lemmas browser_defs = ws_readyState_def new_WebSocket_def setTimeout_def clearTimeout_def
  ws_close_def ws_send_def set_readyState_def timer_fired_def

lemmas exp_defs = maxReconnectAttempts_exp_def connect_exp_def onopen_exp_def onmessage_exp_def
  attemptReconnect_def onclose_exp_def onerror_exp_def disconnect_exp_def send_exp_def

lemmas fix_defs = connect_fix_def onopen_fix_def onmessage_fix_def retry_fix_def
  onclose_fix_def onerror_fix_def disconnect_fix_def send_fix_def

lemmas handler_defs = connect_def disconnect_def send_def onopen_def onmessage_def
  onerror_def onclose_def ontimer_def

lemmas hook_defs = store_defs browser_defs exp_defs fix_defs handler_defs

lemmas eval_defs = hook_defs default_hook_def init_def after_def
  pending_timers_def open_sockets_def live_sockets_def

lemma run_append:
  "run v h s (es @ fs) = (case run v h s es of None \<Rightarrow> None | Some s' \<Rightarrow> run v h s' fs)"
  by (induction es arbitrary: s) (auto split: option.splits)

lemma run_invariant:
  assumes "run v h s es = Some t" and "P s"
    and "\<And>a e b. P a \<Longrightarrow> step v h a e = Some b \<Longrightarrow> P b"
  shows "P t"
  using assms(1,2)
proof (induction es arbitrary: s)
  case Nil
  then show ?case by simp
next
  case (Cons e es)
  then obtain s' where "step v h s e = Some s'" "run v h s' es = Some t"
    by (auto split: option.splits)
  with Cons assms(3) show ?case by blast
qed

lemma readings_append [simp]: "readings (es @ fs) = readings es @ readings fs"
  by (induction es) (auto split: option.splits)

subsection \<open>Frames that do not parse\<close>

lemma onmessage_unparsable:
  "json_parse h data = None \<Longrightarrow>
   onmessage v h data now s = s\<lparr>console := console s @ [''Failed to parse WebSocket message:'']\<rparr>"
  by (cases v) (simp_all add: onmessage_def onmessage_exp_def onmessage_fix_def console_error_def)

text \<open>
  C6: when a text frame arrives on an open socket and \<open>JSON.parse\<close> rejects it, the
  handler returns normally (the event has a successor state: the exception is caught),
  the status is what it was and no status was written, no callback was called (so the
  message handler was not), and the console has one more line: the frame is logged and
  dropped. This holds for both hooks, in every state.
\<close>

theorem unparsable_frame_dropped:
  assumes "json_parse h data = None"
    and "i < length (sockets s)" and "readyState (sockets s ! i) = OPEN"
  shows "\<exists>s'. step v h s (SockMessage i data now) = Some s'
           \<and> status s' = status s \<and> status_log s' = status_log s
           \<and> calls s' = calls s
           \<and> console s' = console s @ [''Failed to parse WebSocket message:'']"
  using assms by (simp add: onmessage_unparsable)

theorem unparsable_frame_dropped_witness:
  "json_parse default_hook ''{'' = None
   \<and> readyState (sockets (after FixedDelay default_hook [Connect, SockOpen 0 1]) ! 0) = OPEN
   \<and> (\<exists>s'. step FixedDelay default_hook (after FixedDelay default_hook [Connect, SockOpen 0 1])
              (SockMessage 0 ''{'' 7) = Some s'
          \<and> status s' = Connected \<and> status_log s' = [Connecting, Connected]
          \<and> calls s' = [OnOpen]
          \<and> console s' = [''Failed to parse WebSocket message:''])"
  using unparsable_frame_dropped [of default_hook "''{''" 0
      "after FixedDelay default_hook [Connect, SockOpen 0 1]" FixedDelay 7]
  by (simp add: eval_defs)

text \<open>
  C10: when \<open>JSON.parse\<close> rejects a frame, the message handler of either hook leaves the
  whole connection state as it was: status, \<open>lastSync\<close>, \<open>errorMessage\<close> and
  \<open>reconnectAttempts\<close> keep their values (the parse comes before \<open>setLastSync\<close>), and the
  only change to the state at all is the line on the console.
\<close>

theorem unparsable_frame_state_unchanged:
  assumes "json_parse h data = None"
  shows "status (onmessage v h data now s) = status s
       \<and> lastSync (onmessage v h data now s) = lastSync s
       \<and> errorMessage (onmessage v h data now s) = errorMessage s
       \<and> reconnectAttempts (onmessage v h data now s) = reconnectAttempts s
       \<and> onmessage v h data now s
           = s\<lparr>console := console s @ [''Failed to parse WebSocket message:'']\<rparr>"
  using assms by (simp add: onmessage_unparsable)

theorem unparsable_frame_state_unchanged_witness:
  "json_parse default_hook ''{'' = None
   \<and> lastSync (onmessage ExpBackoff default_hook ''{'' 7
        (after ExpBackoff default_hook [Connect, SockOpen 0 1])) = Some 1
   \<and> status (onmessage ExpBackoff default_hook ''{'' 7
        (after ExpBackoff default_hook [Connect, SockOpen 0 1])) = Connected
   \<and> errorMessage (onmessage ExpBackoff default_hook ''{'' 7
        (after ExpBackoff default_hook [Connect, SockOpen 0 1])) = None"
  using unparsable_frame_state_unchanged [of default_hook "''{''" ExpBackoff 7
      "after ExpBackoff default_hook [Connect, SockOpen 0 1]"]
  by (simp add: eval_defs)

subsection \<open>A socket opens\<close>

lemma step_errorMessage_fix:
  "step FixedDelay h s e = Some s' \<Longrightarrow> errorMessage s' = errorMessage s"
  by (cases e) (auto simp: hook_defs Let_def split: if_splits option.splits)

lemma errorMessage_fix:
  "run FixedDelay h init es = Some s \<Longrightarrow> errorMessage s = None"
  by (rule run_invariant [where P = "\<lambda>s. errorMessage s = None"])
     (auto simp: init_def dest: step_errorMessage_fix)

text \<open>
  C9: in every reachable state of either hook, when a connecting socket opens, the state
  after \<open>onopen\<close> has status \<open>connected\<close>, \<open>reconnectAttempts\<close> 0, \<open>lastSync\<close> the clock
  reading of the event and \<open>errorMessage\<close> null; the refs and the timers are untouched and
  the only socket that changed is the one that opened. (The store of the second hook has
  no \<open>errorMessage\<close>: there it is null because nothing ever writes it.)
\<close>

theorem open_resets_state:
  assumes "run v h init es = Some s" and "step v h s (SockOpen i now) = Some s'"
  shows "status s' = Connected \<and> reconnectAttempts s' = 0 \<and> lastSync s' = Some now
       \<and> errorMessage s' = None
       \<and> wsRef s' = wsRef s \<and> reconnectTimeoutRef s' = reconnectTimeoutRef s
       \<and> timers s' = timers s
       \<and> sockets s' = (sockets s)[i := (sockets s ! i)\<lparr>readyState := OPEN\<rparr>]"
proof (cases v)
  case ExpBackoff
  with assms(2) show ?thesis
    by (auto simp: hook_defs split: if_splits)
next
  case FixedDelay
  with assms(1) have "errorMessage s = None"
    by (simp add: errorMessage_fix)
  with FixedDelay assms(2) show ?thesis
    by (auto simp: hook_defs split: if_splits)
qed

theorem open_resets_state_witness:
  "run ExpBackoff default_hook init [Connect, SockClose 0 True, TimerFire 0]
     = Some (after ExpBackoff default_hook [Connect, SockClose 0 True, TimerFire 0])
   \<and> reconnectAttempts (after ExpBackoff default_hook [Connect, SockClose 0 True, TimerFire 0]) = 1
   \<and> errorMessage (after ExpBackoff default_hook [Connect, SockClose 0 True, TimerFire 0])
       = Some ''WebSocket connection failed''
   \<and> (\<exists>s'. step ExpBackoff default_hook
          (after ExpBackoff default_hook [Connect, SockClose 0 True, TimerFire 0])
          (SockOpen 1 7) = Some s'
        \<and> status s' = Connected \<and> reconnectAttempts s' = 0 \<and> lastSync s' = Some 7
        \<and> errorMessage s' = None)"
proof -
  let ?s = "after ExpBackoff default_hook [Connect, SockClose 0 True, TimerFire 0]"
  have r: "run ExpBackoff default_hook init [Connect, SockClose 0 True, TimerFire 0] = Some ?s"
    by (simp add: eval_defs)
  have a: "reconnectAttempts ?s = 1" "errorMessage ?s = Some ''WebSocket connection failed''"
    by (simp_all add: eval_defs)
  have "\<exists>s'. step ExpBackoff default_hook ?s (SockOpen 1 7) = Some s'"
    by (simp add: eval_defs)
  then obtain s' where s': "step ExpBackoff default_hook ?s (SockOpen 1 7) = Some s'" ..
  from open_resets_state [OF r s'] r s' a show ?thesis by blast
qed

subsection \<open>The attempt counter and the time of the last sync\<close>









subsection \<open>Sending\<close>

text \<open>
  C8 (amended): \<open>send\<close> tests the socket, not the status of the store. In every state of
  either hook, when the current socket (\<open>wsRef\<close>) is open, \<open>send m\<close> hands
  \<open>JSON.stringify m\<close> to that socket and changes nothing else; in every other case (no
  socket, or one that is connecting, closing or closed) the state is unchanged: nothing
  is sent, queued, logged or thrown.
\<close>

theorem send_iff_socket_open:
  "(ws_readyState s = Some OPEN \<longrightarrow>
      (\<exists>i. wsRef s = Some i \<and> i < length (sockets s)
         \<and> send v h m s = s\<lparr>sockets := (sockets s)[i := (sockets s ! i)
               \<lparr>sent := sent (sockets s ! i) @ [json_stringify h m]\<rparr>]\<rparr>))
   \<and> (ws_readyState s \<noteq> Some OPEN \<longrightarrow> send v h m s = s)"
  by (cases v) (auto simp: hook_defs split: option.splits if_splits)

theorem send_iff_socket_open_witness:
  "ws_readyState (after FixedDelay default_hook [Connect, SockOpen 0 1]) = Some OPEN
   \<and> map sent (sockets (send FixedDelay default_hook JNull
        (after FixedDelay default_hook [Connect, SockOpen 0 1]))) = [[''null'']]
   \<and> ws_readyState (after FixedDelay default_hook [Connect]) \<noteq> Some OPEN
   \<and> send FixedDelay default_hook JNull (after FixedDelay default_hook [Connect])
       = after FixedDelay default_hook [Connect]"
  using send_iff_socket_open [of "after FixedDelay default_hook [Connect, SockOpen 0 1]"
      FixedDelay default_hook JNull]
    send_iff_socket_open [of "after FixedDelay default_hook [Connect]"
      FixedDelay default_hook JNull]
  by (simp add: eval_defs)

text \<open>
  The status and the socket can differ. After a disconnect and a new connect, the late
  \<open>close\<close> event of the old socket writes \<open>disconnected\<close> while the new socket is open:
  \<open>send\<close> transmits although the status is not \<open>connected\<close>. And after two connects, the
  first socket opening writes \<open>connected\<close> while \<open>wsRef\<close> is the second, still connecting:
  \<open>send\<close> drops the message although the status is \<open>connected\<close>.
\<close>

theorem send_while_not_connected_counterexample:
  "map_option status
     (run FixedDelay default_hook init
        [Connect, SockOpen 0 1, Disconnect, Connect, SockOpen 1 2, SockClose 0 False])
     = Some Disconnected
   \<and> map_option (map sent \<circ> sockets \<circ> send FixedDelay default_hook JNull)
     (run FixedDelay default_hook init
        [Connect, SockOpen 0 1, Disconnect, Connect, SockOpen 1 2, SockClose 0 False])
     = Some [[], [''null'']]
   \<and> map_option status
     (run FixedDelay default_hook init [Connect, Connect, SockOpen 0 1]) = Some Connected
   \<and> map_option (map sent \<circ> sockets \<circ> send FixedDelay default_hook JNull)
     (run FixedDelay default_hook init [Connect, Connect, SockOpen 0 1]) = Some [[], []]"
  by (simp add: eval_defs)

subsection \<open>Two failures, then success\<close>

text \<open>
  C4 (amended): \<open>connect()\<close>, the socket fails (\<open>error\<close>, then \<open>close\<close>), the retry timer
  fires, the second socket fails, the timer fires, the third socket opens. With a valid
  URL and at least two attempts allowed, the statuses written are
  \<^item> by the hook with a fixed delay: connecting, error, disconnected, connecting, error,
    disconnected, connecting, connected;
  \<^item> by the hook with exponential backoff: error, disconnected, reconnecting, error,
    disconnected, reconnecting, connected;
  and \<open>reconnectAttempts\<close> is 0 at the end in both.
\<close>

theorem status_sequence_two_failures:
  assumes "url_valid h" and "2 \<le> maxReconnectAttempts h"
  shows "map_option status_log
           (run FixedDelay h init [Connect, SockClose 0 True, TimerFire 0,
              SockClose 1 True, TimerFire 1, SockOpen 2 now])
         = Some [Connecting, Error, Disconnected, Connecting, Error, Disconnected,
                 Connecting, Connected]
       \<and> map_option reconnectAttempts
           (run FixedDelay h init [Connect, SockClose 0 True, TimerFire 0,
              SockClose 1 True, TimerFire 1, SockOpen 2 now]) = Some 0
       \<and> map_option status_log
           (run ExpBackoff h init [Connect, SockClose 0 True, TimerFire 0,
              SockClose 1 True, TimerFire 1, SockOpen 2 now])
         = Some [Error, Disconnected, Reconnecting, Error, Disconnected, Reconnecting,
                 Connected]
       \<and> map_option reconnectAttempts
           (run ExpBackoff h init [Connect, SockClose 0 True, TimerFire 0,
              SockClose 1 True, TimerFire 1, SockOpen 2 now]) = Some 0"
  using assms by (simp add: hook_defs init_def Let_def)

theorem status_sequence_two_failures_witness:
  "url_valid default_hook \<and> 2 \<le> maxReconnectAttempts default_hook
   \<and> map_option status_log
       (run FixedDelay default_hook init [Connect, SockClose 0 True, TimerFire 0,
          SockClose 1 True, TimerFire 1, SockOpen 2 9])
     = Some [Connecting, Error, Disconnected, Connecting, Error, Disconnected,
             Connecting, Connected]
   \<and> map_option reconnectAttempts
       (run ExpBackoff default_hook init [Connect, SockClose 0 True, TimerFire 0,
          SockClose 1 True, TimerFire 1, SockOpen 2 9]) = Some 0"
proof -
  have u: "url_valid default_hook" and m: "2 \<le> maxReconnectAttempts default_hook"
    by (simp_all add: default_hook_def)
  from status_sequence_two_failures [OF u m, of 9] u m show ?thesis
    by blast
qed

theorem status_sequence_counterexample:
  "map_option status_log
       (run FixedDelay default_hook init [Connect, SockClose 0 True, TimerFire 0,
          SockClose 1 True, TimerFire 1, SockOpen 2 9])
     \<noteq> Some [Connecting, Reconnecting, Connecting, Reconnecting, Connecting, Connected]
   \<and> map_option status_log
       (run ExpBackoff default_hook init [Connect, SockClose 0 True, TimerFire 0,
          SockClose 1 True, TimerFire 1, SockOpen 2 9])
     \<noteq> Some [Connecting, Reconnecting, Connecting, Reconnecting, Connecting, Connected]"
  by (simp add: eval_defs)

subsection \<open>Disconnecting\<close>

text \<open>
  C1: \<open>disconnect()\<close> with a retry pending. The first socket fails and a retry is
  scheduled; \<open>connect()\<close> is called before the timer fires, so a retry is pending and a
  socket is live. Then \<open>disconnect()\<close>: the timer is cleared, the socket is closing, the
  status is \<open>disconnected\<close>. But the socket's \<open>onclose\<close> is still attached: its \<open>close\<close>
  event schedules a new retry, and when that timer fires the hook connects again (the
  hook with a fixed delay enters \<open>connecting\<close>), with no call of \<open>connect()\<close> in between.
\<close>

theorem reconnect_after_disconnect:
  "map_option (\<lambda>s. (pending_timers s, live_sockets s))
     (run FixedDelay default_hook init [Connect, SockClose 0 True, Connect])
     = Some ([0], [1])
   \<and> map_option (\<lambda>s. (status s, pending_timers s, map readyState (sockets s)))
     (run FixedDelay default_hook init [Connect, SockClose 0 True, Connect, Disconnect])
     = Some (Disconnected, [], [CLOSED, CLOSING])
   \<and> map_option pending_timers
     (run FixedDelay default_hook init
        [Connect, SockClose 0 True, Connect, Disconnect, SockClose 1 True])
     = Some [1]
   \<and> map_option (\<lambda>s. (status s, live_sockets s))
     (run FixedDelay default_hook init
        [Connect, SockClose 0 True, Connect, Disconnect, SockClose 1 True, TimerFire 1])
     = Some (Connecting, [2])
   \<and> map_option (\<lambda>s. (status s, live_sockets s))
     (run ExpBackoff default_hook init
        [Connect, SockClose 0 True, Connect, Disconnect, SockClose 1 True, TimerFire 1])
     = Some (Reconnecting, [2])"
  by (simp add: eval_defs)

subsection \<open>Consecutive failures to open\<close>

lemma map_eq_length: "map f xs = ys \<Longrightarrow> length xs = length ys"
  by auto

lemma map_eq_nth: "map f xs = ys \<Longrightarrow> i < length ys \<Longrightarrow> f (xs ! i) = ys ! i"
  by auto

lemma retryingD:
  assumes "retrying j s"
  shows "length (sockets s) = Suc j" and "readyState (sockets s ! j) = CONNECTING"
    and "length (timers s) = j" and "reconnectAttempts s = j" and "wsRef s = Some j"
proof -
  from assms have m: "map readyState (sockets s) = replicate j CLOSED @ [CONNECTING]"
    and t: "map tstate (timers s) = replicate j Fired"
    by (simp_all add: retrying_def)
  from map_eq_length [OF m] show "length (sockets s) = Suc j" by simp
  from map_eq_nth [OF m, of j] show "readyState (sockets s ! j) = CONNECTING"
    by (simp add: nth_append)
  from map_eq_length [OF t] show "length (timers s) = j" by simp
  from assms show "reconnectAttempts s = j" "wsRef s = Some j"
    by (simp_all add: retrying_def)
qed

lemma no_pending:
  assumes "map tstate (timers s) = replicate j Fired"
  shows "pending_timers s = []"
proof -
  have "tstate (timers s ! t) = Fired" if "t < length (timers s)" for t
    using map_eq_nth [OF assms, of t] map_eq_length [OF assms] that by simp
  then show ?thesis
    by (simp add: pending_timers_def filter_empty_conv)
qed

lemma one_pending:
  assumes "map tstate (timers s) = replicate j Fired @ [Pending]"
  shows "pending_timers s = [j]"
proof -
  have len: "length (timers s) = Suc j"
    using map_eq_length [OF assms] by simp
  have old: "tstate (timers s ! t) = Fired" if "t < j" for t
    using map_eq_nth [OF assms, of t] that by (simp add: nth_append)
  have new: "tstate (timers s ! j) = Pending"
    using map_eq_nth [OF assms, of j] by (simp add: nth_append)
  have "filter (\<lambda>t. tstate (timers s ! t) = Pending) [0..<j] = []"
    using old by (simp add: filter_empty_conv)
  with new len show ?thesis
    by (simp add: pending_timers_def)
qed

lemma no_live:
  assumes "map readyState (sockets s) = replicate n CLOSED"
  shows "live_sockets s = []"
proof -
  have "readyState (sockets s ! i) = CLOSED" if "i < length (sockets s)" for i
    using map_eq_nth [OF assms, of i] map_eq_length [OF assms] that by simp
  then show ?thesis
    by (simp add: live_sockets_def filter_empty_conv)
qed

lemma connect_retrying:
  "url_valid h \<Longrightarrow> retrying 0 (connect FixedDelay h init)"
  by (simp add: retrying_def hook_defs init_def Let_def)

lemma fail_fix:
  assumes "retrying j s"
  shows "\<exists>s1. step FixedDelay h s (SockClose j True) = Some s1
           \<and> status s1 = Disconnected \<and> reconnectAttempts s1 = j \<and> wsRef s1 = Some j
           \<and> map readyState (sockets s1) = replicate (Suc j) CLOSED
           \<and> map tstate (timers s1)
               = (if j < maxReconnectAttempts h then replicate j Fired @ [Pending]
                  else replicate j Fired)"
proof -
  from assms have m: "map readyState (sockets s) = replicate j CLOSED @ [CONNECTING]"
    and t: "map tstate (timers s) = replicate j Fired"
    by (simp_all add: retrying_def)
  have "map readyState ((sockets s)[j := (sockets s ! j)\<lparr>readyState := CLOSED\<rparr>])
          = (map readyState (sockets s))[j := CLOSED]"
    by (simp add: map_update)
  also have "\<dots> = replicate (Suc j) CLOSED"
    by (simp add: m list_update_append replicate_append_same)
  finally have c: "map readyState ((sockets s)[j := (sockets s ! j)\<lparr>readyState := CLOSED\<rparr>])
          = replicate (Suc j) CLOSED" .
  show ?thesis
    using retryingD [OF assms] c t
    by (simp add: hook_defs Let_def del: replicate_Suc)
qed

lemma retry_fix:
  assumes "url_valid h"
    and "wsRef s1 = Some j" and "reconnectAttempts s1 = j"
    and "map readyState (sockets s1) = replicate (Suc j) CLOSED"
    and "map tstate (timers s1) = replicate j Fired @ [Pending]"
  shows "\<exists>s2. step FixedDelay h s1 (TimerFire j) = Some s2 \<and> retrying (Suc j) s2"
proof -
  have len: "length (timers s1) = Suc j" "length (sockets s1) = Suc j"
    using map_eq_length [OF assms(5)] map_eq_length [OF assms(4)] by simp_all
  have p: "tstate (timers s1 ! j) = Pending"
    using map_eq_nth [OF assms(5), of j] by (simp add: nth_append)
  have r: "readyState (sockets s1 ! j) = CLOSED"
    using map_eq_nth [OF assms(4), of j] by (simp del: replicate_Suc)
  have "map tstate ((timers s1)[j := (timers s1 ! j)\<lparr>tstate := Fired\<rparr>])
          = (map tstate (timers s1))[j := Fired]"
    by (simp add: map_update)
  also have "\<dots> = replicate (Suc j) Fired"
    by (simp add: assms(5) list_update_append replicate_append_same)
  finally have f: "map tstate ((timers s1)[j := (timers s1 ! j)\<lparr>tstate := Fired\<rparr>])
          = replicate (Suc j) Fired" .
  show ?thesis
    using assms(1-4) len p r f
    by (simp add: retrying_def hook_defs Let_def del: replicate_Suc)
qed

lemma failures_exhaust_fix:
  assumes "url_valid h"
  shows "retrying j s \<Longrightarrow> j + k = maxReconnectAttempts h \<Longrightarrow>
     \<exists>s'. run FixedDelay h s (failures j (Suc k)) = Some s'
        \<and> status s' = Disconnected \<and> reconnectAttempts s' = maxReconnectAttempts h
        \<and> pending_timers s' = [] \<and> live_sockets s' = []"
proof (induction k arbitrary: j s)
  case 0
  from fail_fix [OF "0.prems"(1), of h] "0.prems"(2)
  obtain s1 where "step FixedDelay h s (SockClose j True) = Some s1"
    "status s1 = Disconnected" "reconnectAttempts s1 = j"
    "map readyState (sockets s1) = replicate (Suc j) CLOSED"
    "map tstate (timers s1) = replicate j Fired"
    by auto
  with "0.prems"(2) no_pending [of s1 j] no_live [of s1 "Suc j"] show ?case
    by (simp del: step.simps replicate_Suc)
next
  case (Suc k)
  then have lt: "j < maxReconnectAttempts h" by simp
  from fail_fix [OF Suc.prems(1), of h] lt
  obtain s1 where s1: "step FixedDelay h s (SockClose j True) = Some s1"
    "reconnectAttempts s1 = j" "wsRef s1 = Some j"
    "map readyState (sockets s1) = replicate (Suc j) CLOSED"
    "map tstate (timers s1) = replicate j Fired @ [Pending]"
    by auto
  from retry_fix [OF assms s1(3,2,4,5)]
  obtain s2 where s2: "step FixedDelay h s1 (TimerFire j) = Some s2" "retrying (Suc j) s2"
    by auto
  from Suc.prems(2) have "Suc j + k = maxReconnectAttempts h" by simp
  from Suc.IH [OF s2(2) this] s1(1) s2(1) show ?case
    by (simp del: step.simps)
qed

lemma failures_pending_fix:
  assumes "url_valid h"
  shows "retrying j s \<Longrightarrow> j + k < maxReconnectAttempts h \<Longrightarrow>
     \<exists>s'. run FixedDelay h s (failures j (Suc k)) = Some s'
        \<and> status s' = Disconnected \<and> reconnectAttempts s' = j + k
        \<and> pending_timers s' = [j + k]"
proof (induction k arbitrary: j s)
  case 0
  from fail_fix [OF "0.prems"(1), of h] "0.prems"(2)
  obtain s1 where "step FixedDelay h s (SockClose j True) = Some s1"
    "status s1 = Disconnected" "reconnectAttempts s1 = j"
    "map tstate (timers s1) = replicate j Fired @ [Pending]"
    by auto
  then show ?case
    by (simp add: one_pending del: step.simps)
next
  case (Suc k)
  then have lt: "j < maxReconnectAttempts h" by simp
  from fail_fix [OF Suc.prems(1), of h] lt
  obtain s1 where s1: "step FixedDelay h s (SockClose j True) = Some s1"
    "reconnectAttempts s1 = j" "wsRef s1 = Some j"
    "map readyState (sockets s1) = replicate (Suc j) CLOSED"
    "map tstate (timers s1) = replicate j Fired @ [Pending]"
    by auto
  from retry_fix [OF assms s1(3,2,4,5)]
  obtain s2 where s2: "step FixedDelay h s1 (TimerFire j) = Some s2" "retrying (Suc j) s2"
    by auto
  from Suc.prems(2) have "Suc j + k < maxReconnectAttempts h" by simp
  from Suc.IH [OF s2(2) this] s1(1) s2(1) show ?case
    by (simp del: step.simps)
qed

lemma failures_6:
  "failures 0 6 = [SockClose 0 True, TimerFire 0, SockClose 1 True, TimerFire 1,
     SockClose 2 True, TimerFire 2, SockClose 3 True, TimerFire 3,
     SockClose 4 True, TimerFire 4, SockClose 5 True]"
  by (simp add: eval_nat_numeral)

lemma failures_exhaust_exp:
  assumes "url_valid h"
  shows "\<exists>s. run ExpBackoff h init (Connect # failures 0 6) = Some s
        \<and> status s = Error \<and> errorMessage s = Some ''Max reconnection attempts reached''
        \<and> reconnectAttempts s = 5 \<and> pending_timers s = [] \<and> live_sockets s = []"
  using assms unfolding failures_6
  by (simp add: hook_defs init_def pending_timers_def live_sockets_def)

text \<open>
  C3 (amended): \<open>maxReconnectAttempts\<close> bounds the reconnects, so the retry loop ends after
  one failure more than that: the first attempt and every retry. With a valid URL,
  \<^item> the hook with a fixed delay, after \<open>maxReconnectAttempts + 1\<close> consecutive failures:
    status \<open>disconnected\<close> (this hook never writes \<open>error\<close> when it gives up),
    \<open>reconnectAttempts = maxReconnectAttempts\<close>, no timer due, no socket live;
  \<^item> the hook with exponential backoff, after 6 consecutive failures: status \<open>error\<close>,
    \<open>errorMessage\<close> set, \<open>reconnectAttempts = 5\<close>, no timer due, no socket live;
  \<^item> the hook with a fixed delay, after \<open>k\<close> failures with \<open>0 < k \<le> maxReconnectAttempts\<close>:
    status \<open>disconnected\<close>, \<open>reconnectAttempts = k - 1\<close> and the next retry is due.
\<close>

theorem retries_exhausted:
  assumes "url_valid h"
  shows "(\<exists>s. run FixedDelay h init (Connect # failures 0 (Suc (maxReconnectAttempts h))) = Some s
           \<and> status s = Disconnected \<and> reconnectAttempts s = maxReconnectAttempts h
           \<and> pending_timers s = [] \<and> live_sockets s = [])
       \<and> (\<exists>s. run ExpBackoff h init (Connect # failures 0 6) = Some s
           \<and> status s = Error \<and> errorMessage s = Some ''Max reconnection attempts reached''
           \<and> reconnectAttempts s = 5 \<and> pending_timers s = [] \<and> live_sockets s = [])
       \<and> (\<forall>k. 0 < k \<and> k \<le> maxReconnectAttempts h \<longrightarrow>
            (\<exists>s. run FixedDelay h init (Connect # failures 0 k) = Some s
               \<and> status s = Disconnected \<and> reconnectAttempts s = k - 1
               \<and> pending_timers s = [k - 1]))"
proof (intro conjI allI impI)
  have r: "retrying 0 (connect FixedDelay h init)"
    using assms by (rule connect_retrying)
  from failures_exhaust_fix [OF assms r, of "maxReconnectAttempts h"]
  show "\<exists>s. run FixedDelay h init (Connect # failures 0 (Suc (maxReconnectAttempts h))) = Some s
           \<and> status s = Disconnected \<and> reconnectAttempts s = maxReconnectAttempts h
           \<and> pending_timers s = [] \<and> live_sockets s = []"
    by (simp del: failures.simps)
  from failures_exhaust_exp [OF assms]
  show "\<exists>s. run ExpBackoff h init (Connect # failures 0 6) = Some s
           \<and> status s = Error \<and> errorMessage s = Some ''Max reconnection attempts reached''
           \<and> reconnectAttempts s = 5 \<and> pending_timers s = [] \<and> live_sockets s = []" .
  fix k
  assume k: "0 < k \<and> k \<le> maxReconnectAttempts h"
  then obtain k' where k': "k = Suc k'" "k' < maxReconnectAttempts h"
    by (cases k) auto
  from failures_pending_fix [OF assms r, of k'] k'
  show "\<exists>s. run FixedDelay h init (Connect # failures 0 k) = Some s
               \<and> status s = Disconnected \<and> reconnectAttempts s = k - 1
               \<and> pending_timers s = [k - 1]"
    by (simp del: failures.simps)
qed

theorem retries_exhausted_witness:
  "url_valid default_hook
   \<and> (\<exists>s. run FixedDelay default_hook init (Connect # failures 0 6) = Some s
           \<and> status s = Disconnected \<and> reconnectAttempts s = 5
           \<and> pending_timers s = [] \<and> live_sockets s = [])
   \<and> (0 < (5::nat) \<and> 5 \<le> maxReconnectAttempts default_hook)
   \<and> (\<exists>s. run FixedDelay default_hook init (Connect # failures 0 5) = Some s
           \<and> status s = Disconnected \<and> reconnectAttempts s = 4
           \<and> pending_timers s = [4])"
proof -
  have u: "url_valid default_hook" and m: "maxReconnectAttempts default_hook = 5"
    by (simp_all add: default_hook_def)
  have six: "Suc (maxReconnectAttempts default_hook) = 6"
    by (simp add: m)
  have k: "0 < (5::nat) \<and> 5 \<le> maxReconnectAttempts default_hook"
    by (simp add: m)
  note t = retries_exhausted [OF u, unfolded six]
  from t have a: "\<exists>s. run FixedDelay default_hook init (Connect # failures 0 6) = Some s
           \<and> status s = Disconnected \<and> reconnectAttempts s = 5
           \<and> pending_timers s = [] \<and> live_sockets s = []"
    by (simp only: m)
  from t k have "\<exists>s. run FixedDelay default_hook init (Connect # failures 0 5) = Some s
           \<and> status s = Disconnected \<and> reconnectAttempts s = 5 - 1
           \<and> pending_timers s = [5 - 1]"
    by blast
  then have b: "\<exists>s. run FixedDelay default_hook init (Connect # failures 0 5) = Some s
           \<and> status s = Disconnected \<and> reconnectAttempts s = 4
           \<and> pending_timers s = [4]"
    by simp
  from u a k b show ?thesis by blast
qed

text \<open>After five failures with the default options a retry is still due in both hooks; the
  status is not \<open>error\<close> and the counter of the hook with a fixed delay is 4.\<close>

theorem five_failures_counterexample:
  "map_option status
     (run FixedDelay default_hook init
        [Connect, SockClose 0 True, TimerFire 0, SockClose 1 True, TimerFire 1,
         SockClose 2 True, TimerFire 2, SockClose 3 True, TimerFire 3, SockClose 4 True])
     = Some Disconnected
   \<and> map_option reconnectAttempts
     (run FixedDelay default_hook init
        [Connect, SockClose 0 True, TimerFire 0, SockClose 1 True, TimerFire 1,
         SockClose 2 True, TimerFire 2, SockClose 3 True, TimerFire 3, SockClose 4 True])
     = Some 4
   \<and> map_option pending_timers
     (run FixedDelay default_hook init
        [Connect, SockClose 0 True, TimerFire 0, SockClose 1 True, TimerFire 1,
         SockClose 2 True, TimerFire 2, SockClose 3 True, TimerFire 3, SockClose 4 True])
     = Some [4]
   \<and> map_option status
     (run ExpBackoff default_hook init
        [Connect, SockClose 0 True, TimerFire 0, SockClose 1 True, TimerFire 1,
         SockClose 2 True, TimerFire 2, SockClose 3 True, TimerFire 3, SockClose 4 True])
     = Some Reconnecting
   \<and> map_option pending_timers
     (run ExpBackoff default_hook init
        [Connect, SockClose 0 True, TimerFire 0, SockClose 1 True, TimerFire 1,
         SockClose 2 True, TimerFire 2, SockClose 3 True, TimerFire 3, SockClose 4 True])
     = Some [4]"
  by (simp add: eval_defs)

subsection \<open>The delay of a retry and the bound on retries\<close>

lemma filter_update_same:
  "i < length xs \<Longrightarrow> P (xs ! i) = P y \<Longrightarrow>
   length (filter P (xs[i := y])) = length (filter P xs)"
  by (induction xs arbitrary: i) (auto split: nat.splits)

lemma filter_update_off:
  "i < length xs \<Longrightarrow> P (xs ! i) \<Longrightarrow> \<not> P y \<Longrightarrow>
   Suc (length (filter P (xs[i := y]))) = length (filter P xs)"
  by (induction xs arbitrary: i) (auto split: nat.splits simp: filter_update_same)

lemma filter_update_on:
  "i < length xs \<Longrightarrow> \<not> P (xs ! i) \<Longrightarrow> P y \<Longrightarrow>
   length (filter P (xs[i := y])) = Suc (length (filter P xs))"
  by (induction xs arbitrary: i) (auto split: nat.splits simp: filter_update_same)

lemma step_timers_exp:
  assumes "step ExpBackoff h s e = Some t" and "\<not> is_open e"
    and "length (timers s) = reconnectAttempts s" and "reconnectAttempts s \<le> 5"
  shows "length (timers t) = reconnectAttempts t \<and> reconnectAttempts t \<le> 5"
  using assms
  by (cases e) (auto simp: hook_defs Let_def split: if_splits option.splits)

lemma run_timers_exp:
  "run ExpBackoff h s es = Some t \<Longrightarrow> \<forall>e \<in> set es. \<not> is_open e \<Longrightarrow>
   length (timers s) = reconnectAttempts s \<Longrightarrow> reconnectAttempts s \<le> 5 \<Longrightarrow>
   length (timers t) = reconnectAttempts t \<and> reconnectAttempts t \<le> 5"
proof (induction es arbitrary: s)
  case Nil
  then show ?case by simp
next
  case (Cons e es)
  from Cons.prems(1) obtain s1 where s1: "step ExpBackoff h s e = Some s1"
    "run ExpBackoff h s1 es = Some t"
    by (auto split: option.splits)
  from step_timers_exp [OF s1(1) _ Cons.prems(3,4)] Cons.prems(2)
  have "length (timers s1) = reconnectAttempts s1" "reconnectAttempts s1 \<le> 5"
    by simp_all
  with Cons.IH [OF s1(2)] Cons.prems(2) show ?case by simp
qed

lemmas count_defs = retries_fired_def retries_pending_def unclosed_def

lemma connect_fix_counts:
  "reconnectAttempts (connect_fix h s) = reconnectAttempts s"
  "timers (connect_fix h s) = timers s"
  "unclosed (connect_fix h s) \<le> Suc (unclosed s)"
  by (simp_all add: connect_fix_def store_defs new_WebSocket_def unclosed_def Let_def)

lemma retry_fix_counts:
  "reconnectAttempts (retry_fix h s) = Suc (reconnectAttempts s)"
  "timers (retry_fix h s) = timers s"
  "unclosed (retry_fix h s) \<le> Suc (unclosed s)"
  by (simp_all add: retry_fix_def connect_fix_def store_defs new_WebSocket_def unclosed_def
      ws_readyState_def Let_def)

lemma clearTimeout_counts:
  "reconnectAttempts (clearTimeout t s) = reconnectAttempts s"
  "sockets (clearTimeout t s) = sockets s"
  "wsRef (clearTimeout t s) = wsRef s"
  "retries_fired (clearTimeout t s) = retries_fired s"
  "retries_pending (clearTimeout t s) \<le> retries_pending s"
proof -
  show "reconnectAttempts (clearTimeout t s) = reconnectAttempts s"
    "sockets (clearTimeout t s) = sockets s" "wsRef (clearTimeout t s) = wsRef s"
    by (simp_all add: clearTimeout_def)
  show "retries_fired (clearTimeout t s) = retries_fired s"
    by (simp add: clearTimeout_def retries_fired_def filter_update_same)
  show "retries_pending (clearTimeout t s) \<le> retries_pending s"
    using filter_update_off [of t "timers s" "\<lambda>t. tstate t = Pending"
        "(timers s ! t)\<lparr>tstate := Cleared\<rparr>"]
    by (auto simp: clearTimeout_def retries_pending_def)
qed

lemma ws_close_counts:
  "reconnectAttempts (ws_close i s) = reconnectAttempts s"
  "timers (ws_close i s) = timers s"
  "unclosed (ws_close i s) = unclosed s"
  by (auto simp: ws_close_def unclosed_def filter_update_same)

lemma disconnect_fix_counts:
  "reconnectAttempts (disconnect_fix s) = reconnectAttempts s"
  "retries_fired (disconnect_fix s) = retries_fired s"
  "retries_pending (disconnect_fix s) \<le> retries_pending s"
  "unclosed (disconnect_fix s) = unclosed s"
proof -
  define s1 where "s1 = (case reconnectTimeoutRef s of None \<Rightarrow> s | Some t \<Rightarrow> clearTimeout t s)"
  define s2 where "s2 = (case wsRef s1 of None \<Rightarrow> s1 | Some i \<Rightarrow> (ws_close i s1)\<lparr>wsRef := None\<rparr>)"
  have d: "disconnect_fix s = setStatus Disconnected s2"
    by (simp only: disconnect_fix_def s1_def s2_def Let_def)
  have a1: "reconnectAttempts s1 = reconnectAttempts s" "retries_fired s1 = retries_fired s"
    "retries_pending s1 \<le> retries_pending s" "sockets s1 = sockets s"
    by (simp_all add: s1_def clearTimeout_counts split: option.splits)
  have a2: "reconnectAttempts s2 = reconnectAttempts s1" "timers s2 = timers s1"
    "unclosed s2 = unclosed s1"
    using ws_close_counts by (simp_all add: s2_def unclosed_def split: option.splits)
  from a1(4) have u: "unclosed s1 = unclosed s" by (simp add: unclosed_def)
  from a2(2) have t: "retries_fired s2 = retries_fired s1" "retries_pending s2 = retries_pending s1"
    by (simp_all add: count_defs)
  show "reconnectAttempts (disconnect_fix s) = reconnectAttempts s"
    "retries_fired (disconnect_fix s) = retries_fired s"
    "retries_pending (disconnect_fix s) \<le> retries_pending s"
    "unclosed (disconnect_fix s) = unclosed s"
    using a1 a2 u t by (simp_all add: d setStatus_def count_defs)
qed

lemma send_fix_counts:
  "reconnectAttempts (send_fix h m s) = reconnectAttempts s"
  "timers (send_fix h m s) = timers s"
  "unclosed (send_fix h m s) = unclosed s"
  by (auto simp: send_fix_def ws_send_def ws_readyState_def unclosed_def filter_update_same
      split: option.splits)

lemma onmessage_fix_counts:
  "reconnectAttempts (onmessage_fix h d now s) = reconnectAttempts s"
  "timers (onmessage_fix h d now s) = timers s"
  "sockets (onmessage_fix h d now s) = sockets s"
  by (simp_all add: onmessage_fix_def store_defs split: option.splits)

lemma onerror_fix_counts:
  "reconnectAttempts (onerror_fix h s) = reconnectAttempts s"
  "timers (onerror_fix h s) = timers s"
  "sockets (onerror_fix h s) = sockets s"
  by (simp_all add: onerror_fix_def store_defs)

lemma onclose_fix_counts:
  "reconnectAttempts (onclose_fix h s) = reconnectAttempts s"
  "sockets (onclose_fix h s) = sockets s"
  "timers (onclose_fix h s) =
     (if reconnectAttempts s < maxReconnectAttempts h
      then timers s @ [\<lparr>delay = reconnectInterval h, tstate = Pending\<rparr>] else timers s)"
  by (simp_all add: onclose_fix_def store_defs setTimeout_def Let_def)

lemma closed_counts:
  assumes "i < length (sockets s)" and "readyState (sockets s ! i) \<noteq> CLOSED"
  shows "Suc (unclosed (set_readyState i CLOSED s)) = unclosed s"
    and "timers (set_readyState i CLOSED s) = timers s"
    and "reconnectAttempts (set_readyState i CLOSED s) = reconnectAttempts s"
  using assms filter_update_off [of i "sockets s" "\<lambda>w. readyState w \<noteq> CLOSED"
      "(sockets s ! i)\<lparr>readyState := CLOSED\<rparr>"]
  by (simp_all add: set_readyState_def unclosed_def)

lemma fired_counts:
  assumes "t < length (timers s)" and "tstate (timers s ! t) = Pending"
  shows "Suc (retries_pending (timer_fired t s)) = retries_pending s"
    and "retries_fired (timer_fired t s) = Suc (retries_fired s)"
    and "sockets (timer_fired t s) = sockets s"
    and "reconnectAttempts (timer_fired t s) = reconnectAttempts s"
  using assms filter_update_off [of t "timers s" "\<lambda>t. tstate t = Pending"
      "(timers s ! t)\<lparr>tstate := Fired\<rparr>"]
    filter_update_on [of t "timers s" "\<lambda>t. tstate t = Fired"
      "(timers s ! t)\<lparr>tstate := Fired\<rparr>"]
  by (simp_all add: timer_fired_def count_defs)

lemma same_timers:
  "timers t = timers s \<Longrightarrow>
   retries_fired t = retries_fired s \<and> retries_pending t = retries_pending s"
  by (simp add: count_defs)

lemma same_sockets: "sockets t = sockets s \<Longrightarrow> unclosed t = unclosed s"
  by (simp add: count_defs)

lemma budget_connect:
  assumes "retry_budget h K s"
  shows "retry_budget h (K + 1) (connect_fix h s)"
  using connect_fix_counts [of h s] same_timers [of "connect_fix h s" s] assms
  unfolding retry_budget_def by auto

lemma budget_disconnect:
  assumes "retry_budget h K s"
  shows "retry_budget h K (disconnect_fix s)"
  using disconnect_fix_counts [of s] assms
  unfolding retry_budget_def by auto

lemma budget_send:
  assumes "retry_budget h K s"
  shows "retry_budget h K (send_fix h m s)"
  using send_fix_counts [of h m s] same_timers [of "send_fix h m s" s] assms
  unfolding retry_budget_def by auto

lemma budget_message:
  assumes "retry_budget h K s"
  shows "retry_budget h K (onmessage_fix h d now s)"
  using onmessage_fix_counts [of h d now s] same_timers [of "onmessage_fix h d now s" s]
    same_sockets [of "onmessage_fix h d now s" s] assms
  unfolding retry_budget_def by auto

lemma budget_close:
  assumes "retry_budget h K s"
    and i: "i < length (sockets s)" "readyState (sockets s ! i) \<noteq> CLOSED"
  shows "retry_budget h K
           (onclose_fix h (if failed then onerror_fix h (set_readyState i CLOSED s)
                           else set_readyState i CLOSED s))"
proof -
  define s1 where "s1 = set_readyState i CLOSED s"
  define s2 where "s2 = (if failed then onerror_fix h s1 else s1)"
  define t where "t = onclose_fix h s2"
  from closed_counts [OF i] have c1: "Suc (unclosed s1) = unclosed s" "timers s1 = timers s"
    "reconnectAttempts s1 = reconnectAttempts s"
    by (simp_all add: s1_def)
  have k2: "sockets s2 = sockets s1" and t2: "timers s2 = timers s1"
    and a2: "reconnectAttempts s2 = reconnectAttempts s1"
    by (simp_all add: s2_def onerror_fix_counts)
  have u2: "unclosed s2 = unclosed s1"
    using k2 by (rule same_sockets)
  from onclose_fix_counts [of h s2]
  have c3: "reconnectAttempts t = reconnectAttempts s" "sockets t = sockets s2"
    "timers t = (if reconnectAttempts s < maxReconnectAttempts h
      then timers s @ [\<lparr>delay = reconnectInterval h, tstate = Pending\<rparr>] else timers s)"
    by (simp_all add: t_def c1 t2 a2)
  have u: "unclosed t = unclosed s1"
    using same_sockets [OF c3(2)] u2 by simp
  have f: "retries_fired t = retries_fired s"
    by (simp add: retries_fired_def c3(3))
  have p: "retries_pending t =
      (if reconnectAttempts s < maxReconnectAttempts h then Suc (retries_pending s)
       else retries_pending s)"
    by (simp add: retries_pending_def c3(3))
  have "retry_budget h K t"
  proof (cases "reconnectAttempts s < maxReconnectAttempts h")
    case True
    with p have p': "retries_pending t = Suc (retries_pending s)" by simp
    from assms(1) have b: "reconnectAttempts s = retries_fired s"
      "retries_pending s + unclosed s \<le> K"
      unfolding retry_budget_def by simp_all
    from b True c1(1) u f p' c3(1) show ?thesis
      unfolding retry_budget_def by linarith
  next
    case False
    with p have p': "retries_pending t = retries_pending s" by simp
    from assms(1) c1(1) u f p' c3(1) show ?thesis
      unfolding retry_budget_def by auto
  qed
  then show ?thesis
    by (simp only: t_def s2_def s1_def)
qed

lemma budget_timer:
  assumes "retry_budget h K s"
    and n: "n < length (timers s)" "tstate (timers s ! n) = Pending"
  shows "retry_budget h K (retry_fix h (timer_fired n s))"
proof -
  define s1 where "s1 = timer_fired n s"
  define t where "t = retry_fix h s1"
  from fired_counts [OF n] have c1: "Suc (retries_pending s1) = retries_pending s"
    "retries_fired s1 = Suc (retries_fired s)" "sockets s1 = sockets s"
    "reconnectAttempts s1 = reconnectAttempts s"
    by (simp_all add: s1_def)
  from retry_fix_counts [of h s1]
  have c2: "reconnectAttempts t = Suc (reconnectAttempts s1)"
    "timers t = timers s1" "unclosed t \<le> Suc (unclosed s1)"
    by (simp_all add: t_def)
  have "retry_budget h K t"
    using assms(1) c1(1,2,4) same_sockets [OF c1(3)] c2(1,3) same_timers [OF c2(2)]
    unfolding retry_budget_def by auto
  then show ?thesis
    by (simp only: t_def s1_def)
qed

lemma step_budget_fix:
  assumes "step FixedDelay h s e = Some t" and "\<not> is_open e" and "retry_budget h K s"
  shows "retry_budget h (K + (if e = Connect then 1 else 0)) t"
proof (cases e)
  case Connect
  with assms(1) budget_connect [OF assms(3)] show ?thesis
    by (simp add: connect_def)
next
  case Disconnect
  with assms(1) budget_disconnect [OF assms(3)] show ?thesis
    by (simp add: disconnect_def)
next
  case (Send m)
  with assms(1) budget_send [OF assms(3), of m] show ?thesis
    by (simp add: send_def)
next
  case (SockOpen i now)
  with assms(2) show ?thesis by simp
next
  case (SockMessage i d now)
  with assms(1) budget_message [OF assms(3), of d now] show ?thesis
    by (simp add: onmessage_def split: if_splits)
next
  case (SockClose i failed)
  with assms(1) have i: "i < length (sockets s)" "readyState (sockets s ! i) \<noteq> CLOSED"
    by (simp_all split: if_splits)
  from budget_close [OF assms(3) i, of failed] assms(1) SockClose i show ?thesis
    by (simp add: onclose_def onerror_def Let_def split: if_splits)
next
  case (TimerFire n)
  with assms(1) have n: "n < length (timers s)" "tstate (timers s ! n) = Pending"
    by (simp_all split: if_splits)
  from budget_timer [OF assms(3) n] assms(1) TimerFire n show ?thesis
    by (simp add: ontimer_def)
qed

lemma run_budget_fix:
  "run FixedDelay h s es = Some t \<Longrightarrow> \<forall>e \<in> set es. \<not> is_open e \<Longrightarrow> retry_budget h K s \<Longrightarrow>
   retry_budget h (K + count_list es Connect) t"
proof (induction es arbitrary: s K)
  case Nil
  then show ?case by simp
next
  case (Cons e es)
  from Cons.prems(1) obtain s1 where s1: "step FixedDelay h s e = Some s1"
    "run FixedDelay h s1 es = Some t"
    by (auto split: option.splits)
  from step_budget_fix [OF s1(1) _ Cons.prems(3)] Cons.prems(2)
  have "retry_budget h (K + (if e = Connect then 1 else 0)) s1" by simp
  from Cons.IH [OF s1(2) _ this] Cons.prems(2) show ?case
    by (auto simp: add.assoc)
qed

lemma init_budget: "retry_budget h 0 init"
  by (simp add: retry_budget_def count_defs init_def)

text \<open>
  C7 (amended): the delay of a retry is a function of \<open>reconnectAttempts\<close>, and retries
  are bounded while no socket opens.
  \<^item> Exponential backoff: entered with a counter \<open>a < 5\<close>, \<open>attemptReconnect\<close> makes the
    counter \<open>a + 1\<close> and schedules one retry with delay \<open>min (1000 * 2 ^ (a + 1)) 30000\<close>: the
    counter is incremented before the delay is computed, so the delays are 2000, 4000,
    8000, 16000, 30000. With a counter of 5 or more it schedules nothing.
  \<^item> Fixed delay: \<open>onclose\<close> with a counter below \<open>maxReconnectAttempts\<close> schedules one
    retry with delay \<open>reconnectInterval\<close> (3000 by default); otherwise it schedules nothing.
  \<^item> In a run from the initial state in which no socket opens, the hook with backoff
    schedules at most 5 retries, and in the hook with a fixed delay the retries made and
    due are at most \<open>maxReconnectAttempts + K - 1\<close>, for \<open>K\<close> calls of \<open>connect()\<close>.
\<close>

theorem retry_delay_and_bound:
  "(reconnectAttempts s < 5 \<longrightarrow>
      timers (attemptReconnect s)
        = timers s @ [\<lparr>delay = min (1000 * 2 ^ (reconnectAttempts s + 1)) 30000, tstate = Pending\<rparr>]
      \<and> reconnectAttempts (attemptReconnect s) = reconnectAttempts s + 1)
   \<and> (5 \<le> reconnectAttempts s \<longrightarrow> timers (attemptReconnect s) = timers s)
   \<and> (reconnectAttempts s < maxReconnectAttempts h \<longrightarrow>
      timers (onclose_fix h s)
        = timers s @ [\<lparr>delay = reconnectInterval h, tstate = Pending\<rparr>])
   \<and> (maxReconnectAttempts h \<le> reconnectAttempts s \<longrightarrow> timers (onclose_fix h s) = timers s)
   \<and> ((\<forall>e \<in> set es. \<not> is_open e) \<longrightarrow>
        (\<forall>t. run ExpBackoff h init es = Some t \<longrightarrow> length (timers t) \<le> 5)
      \<and> (\<forall>t. run FixedDelay h init es = Some t \<longrightarrow>
            retries_fired t + retries_pending t
              \<le> maxReconnectAttempts h + count_list es Connect - 1))"
proof (intro conjI impI allI)
  assume "reconnectAttempts s < 5"
  then show "timers (attemptReconnect s)
        = timers s @ [\<lparr>delay = min (1000 * 2 ^ (reconnectAttempts s + 1)) 30000, tstate = Pending\<rparr>]"
    and "reconnectAttempts (attemptReconnect s) = reconnectAttempts s + 1"
    by (simp_all add: attemptReconnect_def maxReconnectAttempts_exp_def setTimeout_def
        setStatus_def Let_def)
next
  assume "5 \<le> reconnectAttempts s"
  then show "timers (attemptReconnect s) = timers s"
    by (simp add: attemptReconnect_def maxReconnectAttempts_exp_def store_defs)
next
  assume "reconnectAttempts s < maxReconnectAttempts h"
  then show "timers (onclose_fix h s)
        = timers s @ [\<lparr>delay = reconnectInterval h, tstate = Pending\<rparr>]"
    by (simp add: onclose_fix_counts)
next
  assume "maxReconnectAttempts h \<le> reconnectAttempts s"
  then show "timers (onclose_fix h s) = timers s"
    by (simp add: onclose_fix_counts)
next
  fix t
  assume "\<forall>e \<in> set es. \<not> is_open e" and "run ExpBackoff h init es = Some t"
  from run_timers_exp [OF this(2,1)] show "length (timers t) \<le> 5"
    by (simp add: init_def)
next
  fix t
  assume "\<forall>e \<in> set es. \<not> is_open e" and "run FixedDelay h init es = Some t"
  from run_budget_fix [OF this(2,1) init_budget]
  show "retries_fired t + retries_pending t \<le> maxReconnectAttempts h + count_list es Connect - 1"
    by (auto simp: retry_budget_def)
qed

theorem retry_delay_and_bound_witness:
  "reconnectAttempts init < 5
   \<and> map delay (timers (attemptReconnect init)) = [2000]
   \<and> reconnectAttempts (attemptReconnect init) = 1
   \<and> reconnectAttempts init < maxReconnectAttempts default_hook
   \<and> map delay (timers (onclose_fix default_hook init)) = [3000]
   \<and> 5 \<le> reconnectAttempts (init\<lparr>reconnectAttempts := 5\<rparr>)
   \<and> maxReconnectAttempts default_hook \<le> reconnectAttempts (init\<lparr>reconnectAttempts := 5\<rparr>)
   \<and> timers (attemptReconnect (init\<lparr>reconnectAttempts := 5\<rparr>)) = []
   \<and> timers (onclose_fix default_hook (init\<lparr>reconnectAttempts := 5\<rparr>)) = []
   \<and> filter is_open (Connect # failures 0 6) = []
   \<and> run ExpBackoff default_hook init (Connect # failures 0 6)
       = Some (after ExpBackoff default_hook (Connect # failures 0 6))
   \<and> length (timers (after ExpBackoff default_hook (Connect # failures 0 6))) \<le> 5
   \<and> run FixedDelay default_hook init (Connect # failures 0 6)
       = Some (after FixedDelay default_hook (Connect # failures 0 6))
   \<and> retries_fired (after FixedDelay default_hook (Connect # failures 0 6)) = 5
   \<and> retries_fired (after FixedDelay default_hook (Connect # failures 0 6))
       + retries_pending (after FixedDelay default_hook (Connect # failures 0 6)) \<le> 5"
proof -
  let ?es = "Connect # failures 0 6"
  have a: "reconnectAttempts init < 5" "reconnectAttempts init < maxReconnectAttempts default_hook"
    "5 \<le> reconnectAttempts (init\<lparr>reconnectAttempts := 5\<rparr>)"
    "maxReconnectAttempts default_hook \<le> reconnectAttempts (init\<lparr>reconnectAttempts := 5\<rparr>)"
    by (simp_all add: init_def default_hook_def)
  have n: "\<forall>e \<in> set ?es. \<not> is_open e" and n': "filter is_open ?es = []"
    by (simp_all add: failures_6)
  have c: "maxReconnectAttempts default_hook + count_list ?es Connect - 1 = 5"
    by (simp add: failures_6 default_hook_def)
  have r: "run ExpBackoff default_hook init ?es = Some (after ExpBackoff default_hook ?es)"
    "run FixedDelay default_hook init ?es = Some (after FixedDelay default_hook ?es)"
    "retries_fired (after FixedDelay default_hook ?es) = 5"
    unfolding failures_6 by (simp_all add: eval_defs retries_fired_def)
  note t1 = retry_delay_and_bound [of init default_hook ?es]
  note t2 = retry_delay_and_bound [of "init\<lparr>reconnectAttempts := 5\<rparr>" default_hook "[]"]
  from t1 a(1) have d1: "map delay (timers (attemptReconnect init)) = [2000]"
    "reconnectAttempts (attemptReconnect init) = 1"
    by (simp_all add: init_def)
  from t1 a(2) have d2: "map delay (timers (onclose_fix default_hook init)) = [3000]"
    by (simp add: init_def default_hook_def)
  from t2 a(3,4) have d3: "timers (attemptReconnect (init\<lparr>reconnectAttempts := 5\<rparr>)) = []"
    "timers (onclose_fix default_hook (init\<lparr>reconnectAttempts := 5\<rparr>)) = []"
    by (simp_all add: init_def)
  from t1 n r(1) have b1: "length (timers (after ExpBackoff default_hook ?es)) \<le> 5"
    by blast
  from t1 n r(2) have "retries_fired (after FixedDelay default_hook ?es)
      + retries_pending (after FixedDelay default_hook ?es)
      \<le> maxReconnectAttempts default_hook + count_list ?es Connect - 1"
    by blast
  then have b2: "retries_fired (after FixedDelay default_hook ?es)
      + retries_pending (after FixedDelay default_hook ?es) \<le> 5"
    by (simp only: c)
  from a n' d1 d2 d3 b1 b2 r show ?thesis by blast
qed

text \<open>The first retry of the hook with backoff, scheduled with a counter of 0, has a delay
  of 2000 ms, not \<open>min (1000 * 2 ^ 0) 30000 = 1000\<close>.\<close>

theorem first_delay_counterexample:
  "reconnectAttempts init = 0
   \<and> min (1000 * 2 ^ reconnectAttempts init) 30000 = (1000::nat)
   \<and> map delay (timers (attemptReconnect init)) = [2000]
   \<and> map_option (map delay \<circ> timers)
       (run ExpBackoff default_hook init [Connect, SockClose 0 True]) = Some [2000]"
  by (simp add: eval_defs)

subsection \<open>One socket at a time\<close>

lemma current_only_live:
  assumes "current_only s"
  shows "length (live_sockets s) \<le> 1"
proof (cases "wsRef s")
  case None
  with assms have "\<forall>i < length (sockets s). readyState (sockets s ! i) \<notin> {CONNECTING, OPEN}"
    unfolding current_only_def by simp
  then have "live_sockets s = []"
    unfolding live_sockets_def filter_empty_conv by simp
  then show ?thesis by simp
next
  case (Some i)
  with assms have "\<forall>j < length (sockets s). readyState (sockets s ! j) \<in> {CONNECTING, OPEN} \<longrightarrow> j = i"
    unfolding current_only_def by simp
  then have "set (live_sockets s) \<subseteq> {i}"
    unfolding live_sockets_def by auto
  then have "card (set (live_sockets s)) \<le> card {i}"
    by (intro card_mono) auto
  moreover have "distinct (live_sockets s)"
    by (simp add: live_sockets_def)
  ultimately show ?thesis
    by (simp add: distinct_card)
qed

lemma current_only_cong:
  "sockets t = sockets s \<Longrightarrow> wsRef t = wsRef s \<Longrightarrow> current_only t = current_only s"
  by (simp add: current_only_def)

lemma current_only_new:
  assumes "current_only s" and "ws_readyState s \<noteq> Some CONNECTING"
    and "ws_readyState s \<noteq> Some OPEN"
  shows "current_only (new_WebSocket s)"
proof -
  have "readyState (sockets s ! i) \<notin> {CONNECTING, OPEN}" if "i < length (sockets s)" for i
  proof
    assume l: "readyState (sockets s ! i) \<in> {CONNECTING, OPEN}"
    with assms(1) that have "wsRef s = Some i"
      unfolding current_only_def by blast
    with that have "ws_readyState s = Some (readyState (sockets s ! i))"
      by (simp add: ws_readyState_def)
    with l assms(2,3) show False by auto
  qed
  then have old: "\<And>i. i < length (sockets s) \<Longrightarrow> readyState (sockets s ! i) \<notin> {CONNECTING, OPEN}" .
  have sk: "sockets (new_WebSocket s) = sockets s @ [\<lparr>readyState = CONNECTING, sent = []\<rparr>]"
    and rf: "wsRef (new_WebSocket s) = Some (length (sockets s))"
    by (simp_all add: new_WebSocket_def)
  show ?thesis
    unfolding current_only_def sk rf
  proof (intro allI impI)
    fix i
    assume i: "i < length (sockets s @ [\<lparr>readyState = CONNECTING, sent = []\<rparr>])"
      and l: "readyState ((sockets s @ [\<lparr>readyState = CONNECTING, sent = []\<rparr>]) ! i)
               \<in> {CONNECTING, OPEN}"
    show "Some (length (sockets s)) = Some i"
    proof (cases "i < length (sockets s)")
      case True
      with l old [OF True] show ?thesis by (simp add: nth_append)
    next
      case False
      with i show ?thesis by simp
    qed
  qed
qed

lemma current_only_close:
  assumes "current_only s" and that: "wsRef s = Some i"
  shows "current_only (ws_close i s)" and "current_only ((ws_close i s)\<lparr>wsRef := None\<rparr>)"
proof -
  have a: "\<And>j. j < length (sockets s) \<Longrightarrow> readyState (sockets s ! j) \<in> {CONNECTING, OPEN} \<Longrightarrow> j = i"
    using assms unfolding current_only_def by auto
  have len: "length (sockets (ws_close i s)) = length (sockets s)"
    by (simp add: ws_close_def)
  have rf: "wsRef (ws_close i s) = wsRef s"
    by (simp add: ws_close_def)
  have dead: "readyState (sockets (ws_close i s) ! j) \<notin> {CONNECTING, OPEN}"
    if j: "j < length (sockets s)" for j
  proof (cases "j = i")
    case True
    with j show ?thesis by (simp add: ws_close_def)
  next
    case False
    with a [OF j] have "readyState (sockets s ! j) \<notin> {CONNECTING, OPEN}" by blast
    with False show ?thesis by (simp add: ws_close_def)
  qed
  show "current_only (ws_close i s)"
    unfolding current_only_def len using dead by blast
  have "sockets ((ws_close i s)\<lparr>wsRef := None\<rparr>) = sockets (ws_close i s)"
    by simp
  then show "current_only ((ws_close i s)\<lparr>wsRef := None\<rparr>)"
    unfolding current_only_def len using dead by (simp add: len)
qed

lemma ws_readyState_cong:
  "sockets t = sockets s \<Longrightarrow> wsRef t = wsRef s \<Longrightarrow> ws_readyState t = ws_readyState s"
  by (simp add: ws_readyState_def split: option.splits)

lemma current_only_update:
  assumes "current_only s"
    and "i < length (sockets s) \<Longrightarrow> readyState w \<in> {CONNECTING, OPEN} \<Longrightarrow> wsRef s = Some i"
  shows "current_only (s\<lparr>sockets := (sockets s)[i := w]\<rparr>)"
proof -
  have "wsRef s = Some j"
    if j: "j < length (sockets s)" and l: "readyState ((sockets s)[i := w] ! j) \<in> {CONNECTING, OPEN}"
    for j
  proof (cases "j = i")
    case True
    with j l assms(2) show ?thesis by simp
  next
    case False
    with l have "readyState (sockets s ! j) \<in> {CONNECTING, OPEN}" by simp
    with assms(1) j show ?thesis unfolding current_only_def by blast
  qed
  then show ?thesis
    unfolding current_only_def by simp
qed

lemma current_only_connect:
  assumes "current_only s" and "ws_readyState s \<noteq> Some CONNECTING"
  shows "current_only (connect v h s)"
proof (cases "ws_readyState s = Some OPEN")
  case True
  with assms(1) show ?thesis
    by (cases v) (simp_all add: connect_def connect_exp_def connect_fix_def)
next
  case False
  show ?thesis
  proof (cases v)
    case ExpBackoff
    have "current_only (setError m (setStatus Error s))" for m
      using assms(1) current_only_cong [of "setError m (setStatus Error s)" s]
      by (simp add: store_defs)
    with ExpBackoff False current_only_new [OF assms False] show ?thesis
      by (simp add: connect_def connect_exp_def)
  next
    case FixedDelay
    define s1 where "s1 = setStatus Connecting s"
    have f: "sockets s1 = sockets s" "wsRef s1 = wsRef s"
      by (simp_all add: s1_def setStatus_def)
    from current_only_cong [OF f] assms(1) have c1: "current_only s1" by simp
    from ws_readyState_cong [OF f] assms(2) False
    have r1: "ws_readyState s1 \<noteq> Some CONNECTING" "ws_readyState s1 \<noteq> Some OPEN"
      by simp_all
    have "current_only (console_error l (setStatus Error s1))" for l
      using c1 current_only_cong [of "console_error l (setStatus Error s1)" s1]
      by (simp add: store_defs)
    with FixedDelay False current_only_new [OF c1 r1] show ?thesis
      by (simp add: connect_def connect_fix_def Let_def s1_def)
  qed
qed

lemma current_only_disconnect:
  assumes "current_only s"
  shows "current_only (disconnect v s)"
proof -
  define s1 where "s1 = (case reconnectTimeoutRef s of None \<Rightarrow> s | Some t \<Rightarrow> clearTimeout t s)"
  have f: "sockets s1 = sockets s" "wsRef s1 = wsRef s"
    by (simp_all add: s1_def clearTimeout_def split: option.splits)
  from current_only_cong [OF f] assms have c1: "current_only s1" by simp
  have st: "current_only (setStatus Disconnected t) = current_only t" for t
    by (rule current_only_cong) (simp_all add: setStatus_def)
  show ?thesis
  proof (cases "wsRef s1")
    case None
    with c1 show ?thesis
      by (cases v)
        (simp_all only: disconnect_def disconnect_exp_def disconnect_fix_def Let_def st
          s1_def [symmetric] variant.case option.case)
  next
    case (Some i)
    from current_only_close [OF c1 Some] Some show ?thesis
      by (cases v)
        (simp_all only: disconnect_def disconnect_exp_def disconnect_fix_def Let_def st
          s1_def [symmetric] variant.case option.case)
  qed
qed

lemma current_only_send:
  assumes "current_only s"
  shows "current_only (send v h m s)"
proof -
  have "current_only (ws_send i f s)" for i f
    unfolding ws_send_def
  proof (rule current_only_update [OF assms])
    assume "i < length (sockets s)"
      and "readyState ((sockets s ! i)\<lparr>sent := sent (sockets s ! i) @ [f]\<rparr>) \<in> {CONNECTING, OPEN}"
    with assms show "wsRef s = Some i"
      unfolding current_only_def by auto
  qed
  then show ?thesis
    using assms
    by (cases v) (simp_all add: send_def send_exp_def send_fix_def split: option.splits)
qed

lemma current_only_onmessage:
  "current_only (onmessage v h d now s) = current_only s"
  by (rule current_only_cong; cases v)
    (simp_all add: onmessage_def onmessage_exp_def onmessage_fix_def store_defs
      split: option.splits)

lemma current_only_onopen:
  "current_only (onopen v h now s) = current_only s"
  by (rule current_only_cong; cases v)
    (simp_all add: onopen_def onopen_exp_def onopen_fix_def store_defs)

lemma current_only_onerror:
  "current_only (onerror v h s) = current_only s"
  by (rule current_only_cong; cases v)
    (simp_all add: onerror_def onerror_exp_def onerror_fix_def store_defs)

lemma current_only_onclose:
  "current_only (onclose v h s) = current_only s"
  by (rule current_only_cong; cases v)
    (simp_all add: onclose_def onclose_exp_def onclose_fix_def attemptReconnect_def
      setTimeout_def store_defs Let_def)

lemma current_only_closed:
  assumes "current_only s"
  shows "current_only (set_readyState i CLOSED s)"
  unfolding set_readyState_def
  by (rule current_only_update [OF assms]) simp

lemma current_only_opened:
  assumes "current_only s" and "i < length (sockets s)"
    and "readyState (sockets s ! i) = CONNECTING"
  shows "current_only (set_readyState i OPEN s)"
proof -
  from assms have "wsRef s = Some i"
    unfolding current_only_def by simp
  then show ?thesis
    unfolding set_readyState_def
    by (intro current_only_update [OF assms(1)])
qed

lemma step_current_only:
  assumes "step v h s e = Some t" and "current_only s"
    and "connects e \<Longrightarrow> ws_readyState s \<noteq> Some CONNECTING"
  shows "current_only t"
proof (cases e)
  case Connect
  with assms show ?thesis
    by (auto simp: current_only_connect)
next
  case Disconnect
  with assms show ?thesis
    by (auto simp: current_only_disconnect)
next
  case (Send m)
  with assms show ?thesis
    by (auto simp: current_only_send)
next
  case (SockOpen i now)
  with assms(1) have i: "i < length (sockets s)" "readyState (sockets s ! i) = CONNECTING"
    and t: "t = onopen v h now (set_readyState i OPEN s)"
    by (simp_all split: if_splits)
  from current_only_opened [OF assms(2) i] show ?thesis
    by (simp add: t current_only_onopen)
next
  case (SockMessage i d now)
  with assms(1) have "t = onmessage v h d now s"
    by (simp split: if_splits)
  with assms(2) show ?thesis
    by (simp add: current_only_onmessage)
next
  case (SockClose i failed)
  with assms(1)
  have t: "t = onclose v h (if failed then onerror v h (set_readyState i CLOSED s)
                            else set_readyState i CLOSED s)"
    by (simp add: Let_def split: if_splits)
  from current_only_closed [OF assms(2), of i] show ?thesis
    by (simp add: t current_only_onclose current_only_onerror)
next
  case (TimerFire n)
  define s1 where "s1 = timer_fired n s"
  define s2 where "s2 = s1\<lparr>reconnectAttempts := reconnectAttempts s1 + 1\<rparr>"
  have f1: "sockets s1 = sockets s" "wsRef s1 = wsRef s"
    and f2: "sockets s2 = sockets s" "wsRef s2 = wsRef s"
    by (simp_all add: s1_def s2_def timer_fired_def)
  from TimerFire assms(3) have nc: "ws_readyState s \<noteq> Some CONNECTING" by simp
  from current_only_cong [OF f1] current_only_cong [OF f2] assms(2)
  have c: "current_only s1" "current_only s2" by simp_all
  from ws_readyState_cong [OF f1] ws_readyState_cong [OF f2] nc
  have r: "ws_readyState s1 \<noteq> Some CONNECTING" "ws_readyState s2 \<noteq> Some CONNECTING"
    by simp_all
  from TimerFire assms(1) have t: "t = ontimer v h s1"
    by (simp add: s1_def split: if_splits)
  show ?thesis
  proof (cases v)
    case ExpBackoff
    then have "t = connect ExpBackoff h s1"
      by (simp add: t ontimer_def connect_def)
    with current_only_connect [OF c(1) r(1)] show ?thesis by simp
  next
    case FixedDelay
    then have "t = connect FixedDelay h s2"
      by (simp add: t ontimer_def connect_def retry_fix_def s2_def)
    with current_only_connect [OF c(2) r(2)] show ?thesis by simp
  qed
qed

lemma run_current_only:
  "run v h s es = Some t \<Longrightarrow> patient v h s es \<Longrightarrow> current_only s \<Longrightarrow> current_only t"
proof (induction es arbitrary: s)
  case Nil
  then show ?case by simp
next
  case (Cons e es)
  from Cons.prems(1) obtain s1 where s1: "step v h s e = Some s1" "run v h s1 es = Some t"
    by (auto split: option.splits)
  from Cons.prems(2) s1(1) have p: "connects e \<Longrightarrow> ws_readyState s \<noteq> Some CONNECTING"
    and p1: "patient v h s1 es"
    by (simp_all split: if_splits)
  from step_current_only [OF s1(1) Cons.prems(3) p] have "current_only s1" .
  from Cons.IH [OF s1(2) p1 this] show ?case .
qed

lemma patient_take:
  "patient v h s es \<Longrightarrow> patient v h s (take n es)"
proof (induction es arbitrary: s n)
  case Nil
  then show ?case by simp
next
  case (Cons e es)
  show ?case
  proof (cases n)
    case 0
    then show ?thesis by simp
  next
    case (Suc m)
    with Cons show ?thesis
      by (auto split: option.splits if_splits)
  qed
qed

lemma current_only_init: "current_only init"
  by (simp add: current_only_def init_def)

text \<open>
  C2 (amended): \<open>connect()\<close> while the current socket is open is a no-op: no socket is
  made, none is replaced, the state is unchanged. And in every run from the initial
  state of either hook in which \<open>connect()\<close> (called, or run by a retry timer) never runs
  while the current socket is still connecting, at most one socket is live (connecting
  or open) after any number of events.
\<close>

theorem one_live_socket:
  "(ws_readyState s = Some OPEN \<longrightarrow> connect v h s = s)
   \<and> (\<forall>n t. patient v h init es \<and> run v h init (take n es) = Some t
          \<longrightarrow> length (live_sockets t) \<le> 1)"
proof (intro conjI impI allI)
  assume "ws_readyState s = Some OPEN"
  then show "connect v h s = s"
    by (cases v) (simp_all add: connect_def connect_exp_def connect_fix_def)
next
  fix n t
  assume a: "patient v h init es \<and> run v h init (take n es) = Some t"
  then have "patient v h init (take n es)"
    by (simp add: patient_take)
  from run_current_only [OF _ this current_only_init] a have "current_only t" by simp
  then show "length (live_sockets t) \<le> 1"
    by (rule current_only_live)
qed

theorem one_live_socket_witness:
  "ws_readyState (after FixedDelay default_hook [Connect, SockOpen 0 1]) = Some OPEN
   \<and> connect FixedDelay default_hook (after FixedDelay default_hook [Connect, SockOpen 0 1])
       = after FixedDelay default_hook [Connect, SockOpen 0 1]
   \<and> patient FixedDelay default_hook init
        [Connect, SockOpen 0 1, SockClose 0 False, TimerFire 0, SockOpen 1 5,
         Connect, Disconnect, Connect]
   \<and> run FixedDelay default_hook init
        (take 8 [Connect, SockOpen 0 1, SockClose 0 False, TimerFire 0, SockOpen 1 5,
                 Connect, Disconnect, Connect])
       = Some (after FixedDelay default_hook
                [Connect, SockOpen 0 1, SockClose 0 False, TimerFire 0, SockOpen 1 5,
                 Connect, Disconnect, Connect])
   \<and> live_sockets (after FixedDelay default_hook
                [Connect, SockOpen 0 1, SockClose 0 False, TimerFire 0, SockOpen 1 5,
                 Connect, Disconnect, Connect]) = [2]
   \<and> length (live_sockets (after FixedDelay default_hook
                [Connect, SockOpen 0 1, SockClose 0 False, TimerFire 0, SockOpen 1 5,
                 Connect, Disconnect, Connect])) \<le> 1"
proof -
  let ?s = "after FixedDelay default_hook [Connect, SockOpen 0 1]"
  let ?es = "[Connect, SockOpen 0 1, SockClose 0 False, TimerFire 0, SockOpen 1 5,
              Connect, Disconnect, Connect]"
  let ?t = "after FixedDelay default_hook ?es"
  have o: "ws_readyState ?s = Some OPEN"
    by (simp add: eval_defs)
  have p: "patient FixedDelay default_hook init ?es"
    by (simp add: eval_defs)
  have r: "run FixedDelay default_hook init (take 8 ?es) = Some ?t"
    by (simp add: eval_defs)
  have l: "live_sockets ?t = [2]"
    by (simp add: eval_defs)
  note t = one_live_socket [of ?s FixedDelay default_hook ?es]
  from t o have c: "connect FixedDelay default_hook ?s = ?s" by blast
  from t p r have b: "length (live_sockets ?t) \<le> 1" by blast
  from o c p r l b show ?thesis by blast
qed

text \<open>The guard of \<open>connect()\<close> is \<open>readyState === OPEN\<close> only: a second \<open>connect()\<close> while
  the first socket is still connecting makes a second socket, and both can open.\<close>

theorem two_open_sockets_counterexample:
  "map_option open_sockets
     (run FixedDelay default_hook init [Connect, Connect, SockOpen 0 1, SockOpen 1 2])
     = Some [0, 1]
   \<and> map_option open_sockets
     (run ExpBackoff default_hook init [Connect, Connect, SockOpen 0 1, SockOpen 1 2])
     = Some [0, 1]"
  by (simp add: eval_defs)

end
